theory Spec2Isabelle
  imports Main
begin

section \<open>Python values, exceptions and module constants of main.py\<close>

text \<open>
  The value \<^verbatim>\<open>json.load\<close> returns: any JSON value, not only a list of strings.
  Numbers are kept as integers; no function of the monitor looks inside them.
\<close>

datatype json =
    JNull
  | JBool bool
  | JNum int
  | JStr string
  | JArr "json list"
  | JObj "(string \<times> json) list"

text \<open>
  Exceptions. \<^verbatim>\<open>PlaywrightError\<close> is \<^verbatim>\<open>playwright.async_api.Error\<close>; its library
  subclasses \<^verbatim>\<open>TimeoutError\<close> (raised by \<^verbatim>\<open>wait_for_selector\<close> when the timeout
  expires) and \<^verbatim>\<open>TargetClosedError\<close> are the kinds below, so that
  \<^verbatim>\<open>except PlaywrightError\<close> is a match on the constructor, whatever the kind.
  Every other exception that derives from \<^verbatim>\<open>Exception\<close> is \<open>Exception name\<close>.
\<close>

datatype playwright_error = TimeoutError | TargetClosedError | OtherError

datatype exn = PlaywrightError playwright_error | Exception string

definition DISCORD_FORUM_URL :: string where
  "DISCORD_FORUM_URL = ''https://discord.com/channels/1000384021542469632/1303601992169426995''"

definition FOOTER_TEXT :: string where
  "FOOTER_TEXT = ''brought to you by arle.''"

definition FOOTER_ICON :: string where
  "FOOTER_ICON = ''https://i.imgur.com/JdlwG9w.jpeg''"

definition USERNAME :: string where
  "USERNAME = ''Arlecchino''"

text \<open>The thread id tested at line 168 (the announcements thread).\<close>

definition announcements_thread_id :: string where
  "announcements_thread_id = ''1303609863024148602''"

text \<open>
  The module-level settings that the functions read: \<^verbatim>\<open>MAX_SEEN_THREADS\<close> (20 in the
  source) and \<^verbatim>\<open>ROLE_PING_ID\<close> (from the environment, optional).
\<close>

record config =
  MAX_SEEN_THREADS :: nat
  ROLE_PING_ID :: "string option"

definition source_config :: "string option \<Rightarrow> config" where
  "source_config role = \<lparr>MAX_SEEN_THREADS = 20, ROLE_PING_ID = role\<rparr>"

section \<open>Strings\<close>

text \<open>
  \<^verbatim>\<open>str.strip()\<close> removes whitespace at both ends. The whitespace characters are those
  of \<^verbatim>\<open>str.isspace\<close> below code point 256.
\<close>

definition py_isspace :: "char \<Rightarrow> bool" where
  "py_isspace c \<longleftrightarrow> c \<in> set [CHR 0x09, CHR 0x0A, CHR 0x0B, CHR 0x0C, CHR 0x0D,
     CHR 0x1C, CHR 0x1D, CHR 0x1E, CHR 0x1F, CHR 0x20, CHR 0x85, CHR 0xA0]"

definition strip :: "string \<Rightarrow> string" where
  "strip s = rev (dropWhile py_isspace (rev (dropWhile py_isspace s)))"

text \<open>\<^verbatim>\<open>str(n)\<close> for an integer, as an f-string formats it.\<close>

definition digit_char :: "nat \<Rightarrow> char" where
  "digit_char d = (''0123456789'' ! (d mod 10))"

fun str_nat :: "nat \<Rightarrow> string" where
  "str_nat n = (if n < 10 then [digit_char n] else str_nat (n div 10) @ [digit_char (n mod 10)])"

declare str_nat.simps [simp del]

definition str_int :: "int \<Rightarrow> string" where
  "str_int i = (if i < 0 then CHR ''-'' # str_nat (nat (- i)) else str_nat (nat i))"

text \<open>How an f-string formats an optional string: \<^verbatim>\<open>None\<close> prints as \<^verbatim>\<open>None\<close>.\<close>

definition str_opt :: "string option \<Rightarrow> string" where
  "str_opt a = (case a of None \<Rightarrow> ''None'' | Some s \<Rightarrow> s)"

text \<open>Truthiness of an optional string: \<^verbatim>\<open>None\<close> and the empty string are false.\<close>

definition truthy :: "string option \<Rightarrow> bool" where
  "truthy a = (case a of None \<Rightarrow> False | Some s \<Rightarrow> s \<noteq> [])"

section \<open>The seen-threads file and the in-memory list\<close>

text \<open>
  What \<^verbatim>\<open>seen_threads.json\<close> can be when it is opened: not there, there but not
  readable, readable but not JSON, or JSON with the value it parses to.
\<close>

datatype file_state = Absent | Unreadable | Malformed | Parsed json

definition path_exists :: "file_state \<Rightarrow> bool" where
  "path_exists f = (f \<noteq> Absent)"

text \<open>\<^verbatim>\<open>with open(THREADS_FILE, "r") as f: json.load(f)\<close>, raising as Python does.\<close>

definition open_and_load :: "file_state \<Rightarrow> exn + json" where
  "open_and_load f =
     (case f of
        Absent \<Rightarrow> Inl (Exception ''FileNotFoundError'')
      | Unreadable \<Rightarrow> Inl (Exception ''OSError'')
      | Malformed \<Rightarrow> Inl (Exception ''JSONDecodeError'')
      | Parsed v \<Rightarrow> Inr v)"

text \<open>Lines 32-39. The \<^verbatim>\<open>except Exception\<close> turns every raise into the empty list.\<close>

definition load_seen_threads :: "file_state \<Rightarrow> json" where
  "load_seen_threads f =
     (if path_exists f then
        (case open_and_load f of Inr v \<Rightarrow> v | Inl e \<Rightarrow> JArr [])
      else JArr [])"

text \<open>
  The list \<^verbatim>\<open>seen_threads\<close> is one object that \<^verbatim>\<open>run\<close>, the monitor loop and
  \<^verbatim>\<open>save_seen_threads\<close> share, so lists live in a heap and are passed by reference.
  The state also holds the file, and a log of the webhook calls made so far.
\<close>

type_synonym ref = nat

record thread_data =
  id' :: "string option"
  title :: string
  author :: string
  content :: string
  url :: string
  timestamp :: string

record footer =
  footer_text :: string
  footer_icon_url :: string

record embed =
  embed_title :: string
  embed_description :: string
  embed_timestamp :: "string option"
  embed_footer :: footer

record payload =
  payload_username :: string
  payload_content :: string
  payload_embeds :: "embed list"

text \<open>What \<^verbatim>\<open>requests.post\<close> does when called: a response with a status code, or a raise.\<close>

datatype post_outcome = Responded nat | PostRaised exn

record webhook_call =
  call_thread :: thread_data
  call_payload :: payload
  call_outcome :: post_outcome
  call_returned :: "nat option"

record state =
  heap :: "ref \<Rightarrow> string list"
  threads_file :: file_state
  webhook_calls :: "webhook_call list"

text \<open>
  The slice \<^verbatim>\<open>xs[-n:]\<close> for \<open>n \<ge> 0\<close>: the last \<open>n\<close> elements, all of them when the list
  is shorter, and the whole list when \<open>n = 0\<close> (\<^verbatim>\<open>xs[-0:]\<close> is \<^verbatim>\<open>xs[0:]\<close>).
\<close>

definition slice_last :: "nat \<Rightarrow> 'a list \<Rightarrow> 'a list" where
  "slice_last n xs = (if n = 0 then xs else drop (length xs - n) xs)"

text \<open>
  What the write at lines 45-46 does: it succeeds; or \<^verbatim>\<open>open\<close> raises and the file is as
  it was; or \<^verbatim>\<open>open\<close> has emptied the file and \<^verbatim>\<open>json.dump\<close> raises before the text
  is complete.
\<close>

datatype write_outcome = Written | OpenFailed | DumpFailed

text \<open>
  Lines 41-48. The slice assignment \<^verbatim>\<open>seen_list[:] = ...\<close> changes the list object
  itself, before the file is opened; the \<^verbatim>\<open>except\<close> only prints.
\<close>

definition save_seen_threads :: "config \<Rightarrow> ref \<Rightarrow> write_outcome \<Rightarrow> state \<Rightarrow> state" where
  "save_seen_threads cfg seen_list w st =
     (let st1 = st\<lparr>heap := (heap st)(seen_list := slice_last (MAX_SEEN_THREADS cfg) (heap st seen_list))\<rparr>
      in case w of
           Written \<Rightarrow> st1\<lparr>threads_file := Parsed (JArr (map JStr (heap st1 seen_list)))\<rparr>
         | OpenFailed \<Rightarrow> st1
         | DumpFailed \<Rightarrow> st1\<lparr>threads_file := Malformed\<rparr>)"

text \<open>\<^verbatim>\<open>seen_threads.append(thread_id)\<close>.\<close>

definition list_append :: "ref \<Rightarrow> string \<Rightarrow> state \<Rightarrow> state" where
  "list_append r x st = st\<lparr>heap := (heap st)(r := heap st r @ [x])\<rparr>"

text \<open>
  The two statements that mark a thread seen, at lines 170-171 and again at 180-181:
  append, then save.
\<close>

definition mark_seen :: "config \<Rightarrow> ref \<Rightarrow> write_outcome \<Rightarrow> string \<Rightarrow> state \<Rightarrow> state" where
  "mark_seen cfg seen_threads w thread_id st =
     save_seen_threads cfg seen_threads w (list_append seen_threads thread_id st)"

section \<open>Extraction of one thread element\<close>

text \<open>
  One lookup in the rendered page: \<^verbatim>\<open>query_selector\<close> followed, when an element is
  found, by the read of its text or attribute. Either call can raise; the selector can
  match nothing (\<^verbatim>\<open>None\<close>); or the value is read.
\<close>

datatype 'a probe = Raised exn | NotFound | Found 'a

text \<open>
  What the page gives for one thread element: the five lookups of
  \<^verbatim>\<open>extract_thread_data\<close>, in the order it makes them, and the reading of the clock
  (\<^verbatim>\<open>datetime.utcnow().isoformat()\<close>). An attribute read gives an optional string.
\<close>

record thread_element =
  title_el :: "string probe"
  author_el :: "string probe"
  message_el :: "string probe"
  container :: "string option probe"
  time_el :: "string option probe"
  utcnow :: string

text \<open>Whether a lookup raised.\<close>

definition raised :: "'a probe \<Rightarrow> bool" where
  "raised p = (case p of Raised e \<Rightarrow> True | NotFound \<Rightarrow> False | Found x \<Rightarrow> False)"

text \<open>\<^verbatim>\<open>(await el.inner_text()) if el else default\<close>, raising when the lookup raises.\<close>

definition text_or :: "string \<Rightarrow> string probe \<Rightarrow> exn + string" where
  "text_or dflt p = (case p of Raised e \<Rightarrow> Inl e | NotFound \<Rightarrow> Inr dflt | Found s \<Rightarrow> Inr s)"

text \<open>Lines 79-87: the id and the url, from the container and its attribute.\<close>

definition id_and_url :: "string option probe \<Rightarrow> exn + (string option \<times> string)" where
  "id_and_url p =
     (case p of
        Raised e \<Rightarrow> Inl e
      | NotFound \<Rightarrow> Inr (None, [])
      | Found thread_id \<Rightarrow> Inr (thread_id, DISCORD_FORUM_URL @ ''/threads/'' @ str_opt thread_id))"

text \<open>Lines 89-96: the \<^verbatim>\<open>datetime\<close> attribute, or the clock plus \<^verbatim>\<open>Z\<close>.\<close>

definition timestamp_of :: "string \<Rightarrow> string option probe \<Rightarrow> exn + string" where
  "timestamp_of now p =
     (case p of
        Raised e \<Rightarrow> Inl e
      | NotFound \<Rightarrow> Inr (now @ ''Z'')
      | Found a \<Rightarrow> Inr (if truthy a then the a else now @ ''Z''))"

text \<open>The body of the \<^verbatim>\<open>try\<close> at lines 62-105.\<close>

definition extract_body :: "thread_element \<Rightarrow> exn + thread_data" where
  "extract_body el =
     (case text_or ''Untitled Thread'' (title_el el) of Inl e \<Rightarrow> Inl e | Inr t \<Rightarrow>
      case text_or ''Unknown'' (author_el el) of Inl e \<Rightarrow> Inl e | Inr a \<Rightarrow>
      case text_or [] (message_el el) of Inl e \<Rightarrow> Inl e | Inr c \<Rightarrow>
      case id_and_url (container el) of Inl e \<Rightarrow> Inl e | Inr (thread_id, thread_url) \<Rightarrow>
      case timestamp_of (utcnow el) (time_el el) of Inl e \<Rightarrow> Inl e | Inr ts \<Rightarrow>
        Inr \<lparr>id' = thread_id, title = strip t, author = strip a, content = strip c,
             url = thread_url, timestamp = ts\<rparr>)"

text \<open>Lines 61-108: \<^verbatim>\<open>except Exception\<close> prints and returns \<^verbatim>\<open>None\<close>.\<close>

definition extract_thread_data :: "thread_element \<Rightarrow> thread_data option" where
  "extract_thread_data el = (case extract_body el of Inl e \<Rightarrow> None | Inr d \<Rightarrow> Some d)"

section \<open>The webhook\<close>

text \<open>Lines 51-58: the status code, or \<^verbatim>\<open>None\<close> when \<^verbatim>\<open>requests.post\<close> raises.\<close>

definition send_payload :: "post_outcome \<Rightarrow> nat option" where
  "send_payload r = (case r of Responded status_code \<Rightarrow> Some status_code | PostRaised e \<Rightarrow> None)"

text \<open>Lines 112-137: the payload built for a thread.\<close>

definition build_payload :: "config \<Rightarrow> thread_data \<Rightarrow> payload" where
  "build_payload cfg d =
     (let content_preview = strip (content d);
          mention = (if truthy (ROLE_PING_ID cfg) then ''<@&'' @ the (ROLE_PING_ID cfg) @ ''>'' else [])
      in \<lparr>payload_username = USERNAME,
          payload_content = mention,
          payload_embeds =
            [\<lparr>embed_title = title d,
              embed_description = (if content_preview \<noteq> [] then content_preview else ''No preview available.''),
              embed_timestamp = None,
              embed_footer = \<lparr>footer_text = FOOTER_TEXT, footer_icon_url = FOOTER_ICON\<rparr>\<rparr>]\<rparr>)"

text \<open>
  Lines 111-139: build the payload and send it once. The call is logged with the
  thread it was made for, what \<^verbatim>\<open>requests.post\<close> did and what
  \<^verbatim>\<open>send_payload\<close> returned.
\<close>

definition post_new_thread_webhook :: "config \<Rightarrow> thread_data \<Rightarrow> post_outcome \<Rightarrow> state \<Rightarrow> state" where
  "post_new_thread_webhook cfg d r st =
     st\<lparr>webhook_calls := webhook_calls st @
          [\<lparr>call_thread = d, call_payload = build_payload cfg d, call_outcome = r,
            call_returned = send_payload r\<rparr>]\<rparr>"

section \<open>One pass over the thread elements\<close>

text \<open>
  Lines 163-166: the id used for deduplication. \<^verbatim>\<open>hash\<close> is Python's string hash, a
  function fixed for the life of the process, passed as \<open>h\<close>.
\<close>

definition thread_id_of :: "(string \<Rightarrow> int) \<Rightarrow> thread_data \<Rightarrow> string" where
  "thread_id_of h d =
     (if truthy (id' d) then the (id' d)
      else ''fallback:'' @ str_int (h (url d @ title d)))"

text \<open>
  A candidate is a thread element together with what the outside world answers while
  it is processed: the result of the webhook post and of the file write, should the
  code make them (it makes each at most once per element).
\<close>

record candidate =
  element :: thread_element
  post_result :: post_outcome
  write_result :: write_outcome

text \<open>Lines 160-181, the body of the \<^verbatim>\<open>for\<close> loop.\<close>

definition process_thread_el :: "config \<Rightarrow> (string \<Rightarrow> int) \<Rightarrow> ref \<Rightarrow> candidate \<Rightarrow> state \<Rightarrow> state" where
  "process_thread_el cfg h seen_threads c st =
     (case extract_thread_data (element c) of
        None \<Rightarrow> st
      | Some thread_data \<Rightarrow>
          (let thread_id = thread_id_of h thread_data in
           if thread_id = announcements_thread_id then
             mark_seen cfg seen_threads (write_result c) thread_id st
           else if thread_id \<notin> set (heap st seen_threads) then
             mark_seen cfg seen_threads (write_result c) thread_id
               (post_new_thread_webhook cfg thread_data (post_result c) st)
           else st))"

text \<open>Lines 159-181, the \<^verbatim>\<open>for\<close> loop.\<close>

definition process_thread_elements ::
  "config \<Rightarrow> (string \<Rightarrow> int) \<Rightarrow> ref \<Rightarrow> candidate list \<Rightarrow> state \<Rightarrow> state" where
  "process_thread_elements cfg h seen_threads cs st = fold (process_thread_el cfg h seen_threads) cs st"

text \<open>
  The id the loop computes for a candidate at lines 160-166: none when the extraction
  failed.
\<close>

definition candidate_id :: "(string \<Rightarrow> int) \<Rightarrow> candidate \<Rightarrow> string option" where
  "candidate_id h c = map_option (thread_id_of h) (extract_thread_data (element c))"

text \<open>The webhook calls made for a given thread id.\<close>

definition calls_for :: "(string \<Rightarrow> int) \<Rightarrow> string \<Rightarrow> state \<Rightarrow> webhook_call list" where
  "calls_for h t st = filter (\<lambda>c. thread_id_of h (call_thread c) = t) (webhook_calls st)"

text \<open>The webhook calls made for every other thread id.\<close>

definition calls_for_others :: "(string \<Rightarrow> int) \<Rightarrow> string \<Rightarrow> state \<Rightarrow> webhook_call list" where
  "calls_for_others h t st = filter (\<lambda>c. thread_id_of h (call_thread c) \<noteq> t) (webhook_calls st)"

section \<open>The monitor loop\<close>

text \<open>
  What the outside world answers during one iteration of the \<^verbatim>\<open>while True\<close> loop:
  \<^verbatim>\<open>wait_for_selector\<close> (\<open>None\<close> when the element appears), \<^verbatim>\<open>query_selector_all\<close>,
  \<^verbatim>\<open>random.randint(8, 16)\<close> (a number from 8 to 16), \<^verbatim>\<open>page.mouse.wheel\<close> and
  \<^verbatim>\<open>page.reload\<close> (\<open>None\<close> when they return).
\<close>

record cycle_env =
  wait_for_selector :: "exn option"
  query_selector_all :: "exn + candidate list"
  randint_8_16 :: nat
  mouse_wheel :: "exn option"
  reload :: "exn option"

text \<open>What the loop did besides processing threads, in order.\<close>

datatype event = Sleep_uniform_5_12 | Sleep nat | Scrolled | Reloaded

record loop_state =
  scroll_counter :: nat
  events :: "event list"
  program :: state

datatype 'a control = Continue 'a | Return 'a

definition log_event :: "event \<Rightarrow> loop_state \<Rightarrow> loop_state" where
  "log_event e ls = ls\<lparr>events := events ls @ [e]\<rparr>"

text \<open>
  Lines 207-212, the handlers of the outer \<^verbatim>\<open>try\<close>: a Playwright error of any kind
  returns from the loop, any other exception sleeps 10 seconds and goes round again.
\<close>

definition handle_exception :: "exn \<Rightarrow> loop_state \<Rightarrow> loop_state control" where
  "handle_exception e ls =
     (case e of
        PlaywrightError k \<Rightarrow> Return ls
      | Exception n \<Rightarrow> Continue (log_event (Sleep 10) ls))"

text \<open>Lines 197-205: the reload on every 40th cycle.\<close>

definition reload_step :: "cycle_env \<Rightarrow> loop_state \<Rightarrow> loop_state control" where
  "reload_step env ls =
     (if scroll_counter ls mod 40 = 0 then
        (case reload env of
           None \<Rightarrow> Continue (log_event (Sleep 2) (log_event Reloaded ls))
         | Some (PlaywrightError k) \<Rightarrow> Return ls
         | Some e \<Rightarrow> handle_exception e ls)
      else Continue ls)"

text \<open>Lines 187-205: the scroll, then the reload.\<close>

definition scroll_step :: "cycle_env \<Rightarrow> loop_state \<Rightarrow> loop_state control" where
  "scroll_step env ls =
     (if scroll_counter ls mod randint_8_16 env = 0 then
        (case mouse_wheel env of
           None \<Rightarrow> reload_step env (log_event Scrolled ls)
         | Some (PlaywrightError k) \<Rightarrow> Return ls
         | Some e \<Rightarrow> handle_exception e ls)
      else reload_step env ls)"

text \<open>Lines 148-212, one iteration of the \<^verbatim>\<open>while True\<close> loop.\<close>

definition loop_iteration ::
  "config \<Rightarrow> (string \<Rightarrow> int) \<Rightarrow> ref \<Rightarrow> cycle_env \<Rightarrow> loop_state \<Rightarrow> loop_state control" where
  "loop_iteration cfg h seen_threads env ls =
     (case wait_for_selector env of
        Some e \<Rightarrow> handle_exception e ls
      | None \<Rightarrow>
          (case query_selector_all env of
             Inl e \<Rightarrow> handle_exception e ls
           | Inr thread_elements \<Rightarrow>
               (let ls1 = ls\<lparr>program := process_thread_elements cfg h seen_threads thread_elements (program ls)\<rparr>;
                    ls2 = log_event Sleep_uniform_5_12 ls1;
                    ls3 = ls2\<lparr>scroll_counter := scroll_counter ls2 + 1\<rparr>
                in scroll_step env ls3)))"

text \<open>
  Lines 141-212. The loop has no bound; it is run here against the answers of the
  outside world for finitely many iterations: \<open>Return\<close> when the function returned
  within them, \<open>Continue\<close> when it is still looping after the last one.
\<close>

fun forum_monitor_loop ::
  "config \<Rightarrow> (string \<Rightarrow> int) \<Rightarrow> ref \<Rightarrow> cycle_env list \<Rightarrow> loop_state \<Rightarrow> loop_state control" where
  "forum_monitor_loop cfg h seen_threads [] ls = Continue ls"
| "forum_monitor_loop cfg h seen_threads (env # envs) ls =
     (case loop_iteration cfg h seen_threads env ls of
        Return ls' \<Rightarrow> Return ls'
      | Continue ls' \<Rightarrow> forum_monitor_loop cfg h seen_threads envs ls')"

text \<open>The state a run ended in or is in, and whether the loop function returned.\<close>

definition final :: "'a control \<Rightarrow> 'a" where
  "final c = (case c of Continue x \<Rightarrow> x | Return x \<Rightarrow> x)"

definition returned :: "'a control \<Rightarrow> bool" where
  "returned c = (case c of Continue x \<Rightarrow> False | Return x \<Rightarrow> True)"

section \<open>Concrete inputs\<close>

text \<open>Small configurations and states on which the theorems below are evaluated.\<close>

definition two_cfg :: config where
  "two_cfg = \<lparr>MAX_SEEN_THREADS = 2, ROLE_PING_ID = None\<rparr>"

definition empty_state :: state where
  "empty_state = \<lparr>heap = (\<lambda>r. []), threads_file = Absent, webhook_calls = []\<rparr>"

text \<open>
  A thread element with a title and a native id \<open>s\<close>, and nothing else found.
\<close>

definition native_element :: "string \<Rightarrow> thread_element" where
  "native_element s =
     \<lparr>title_el = Found ''A'', author_el = NotFound, message_el = NotFound,
      container = Found (Some s), time_el = NotFound, utcnow = ''2024-01-01T00:00:00''\<rparr>"

definition native_candidate :: "string \<Rightarrow> candidate" where
  "native_candidate s =
     \<lparr>element = native_element s, post_result = Responded 204, write_result = Written\<rparr>"

text \<open>
  An element in which no lookup finds anything, and one whose author lookup raises.
\<close>

definition bare_element :: thread_element where
  "bare_element =
     \<lparr>title_el = NotFound, author_el = NotFound, message_el = NotFound,
      container = NotFound, time_el = NotFound, utcnow = ''2024-01-01T00:00:00''\<rparr>"

definition vanished_element :: thread_element where
  "vanished_element = bare_element\<lparr>author_el := Raised (PlaywrightError OtherError)\<rparr>"

text \<open>
  Two hash functions.
\<close>

definition zero_hash :: "string \<Rightarrow> int" where
  "zero_hash s = 0"

definition length_hash :: "string \<Rightarrow> int" where
  "length_hash s = - int (length s) - 41"

text \<open>
  A state in which the announcements thread is already seen; a new thread whose webhook
  post raises; two extracted records without a native id; a candidate whose extraction
  raises.
\<close>

definition seen_announcements_state :: state where
  "seen_announcements_state =
     \<lparr>heap = (\<lambda>r. [announcements_thread_id]), threads_file = Absent, webhook_calls = []\<rparr>"

definition failing_post_candidate :: candidate where
  "failing_post_candidate =
     \<lparr>element = native_element ''5'', post_result = PostRaised (Exception ''ConnectionError''),
      write_result = Written\<rparr>"

definition unidentified_1 :: thread_data where
  "unidentified_1 = \<lparr>id' = None, title = ''A'', author = ''x'', content = ''first'',
      url = [], timestamp = ''2024-01-01T00:00:00Z''\<rparr>"

definition unidentified_2 :: thread_data where
  "unidentified_2 = \<lparr>id' = Some [], title = ''A'', author = ''y'', content = ''second'',
      url = [], timestamp = ''2024-01-02T00:00:00Z''\<rparr>"

definition vanished_candidate :: candidate where
  "vanished_candidate = \<lparr>element = vanished_element, post_result = Responded 204, write_result = Written\<rparr>"

text \<open>
  A cycle in which the page shows the given candidates and nothing raises; the loop
  state at the start of \<^verbatim>\<open>forum_monitor_loop\<close>; a page of 21 threads.
\<close>

definition quiet_env :: "candidate list \<Rightarrow> cycle_env" where
  "quiet_env cs = \<lparr>wait_for_selector = None, query_selector_all = Inr cs, randint_8_16 = 16,
      mouse_wheel = None, reload = None\<rparr>"

definition start :: loop_state where
  "start = \<lparr>scroll_counter = 0, events = [], program = empty_state\<rparr>"

definition crowded_page :: "candidate list" where
  "crowded_page = map native_candidate
     [''a'', ''b1'', ''b2'', ''b3'', ''b4'', ''b5'', ''b6'', ''b7'', ''b8'', ''b9'', ''b10'',
      ''b11'', ''b12'', ''b13'', ''b14'', ''b15'', ''b16'', ''b17'', ''b18'', ''b19'', ''b20'']"

section \<open>Properties of the seen list\<close>


lemma heap_save_seen_threads:
  "heap (save_seen_threads cfg r w st) = (heap st)(r := slice_last (MAX_SEEN_THREADS cfg) (heap st r))"
  by (cases w) (simp_all add: save_seen_threads_def Let_def)

lemma webhook_calls_save_seen_threads:
  "webhook_calls (save_seen_threads cfg r w st) = webhook_calls st"
  by (cases w) (simp_all add: save_seen_threads_def Let_def)

lemma threads_file_save_seen_threads:
  "threads_file (save_seen_threads cfg r w st) =
     (case w of Written \<Rightarrow> Parsed (JArr (map JStr (slice_last (MAX_SEEN_THREADS cfg) (heap st r))))
      | OpenFailed \<Rightarrow> threads_file st | DumpFailed \<Rightarrow> Malformed)"
  by (cases w) (simp_all add: save_seen_threads_def Let_def)

lemma heap_mark_seen:
  "heap (mark_seen cfg r w x st) = (heap st)(r := slice_last (MAX_SEEN_THREADS cfg) (heap st r @ [x]))"
  by (simp add: mark_seen_def heap_save_seen_threads list_append_def)

lemma webhook_calls_mark_seen:
  "webhook_calls (mark_seen cfg r w x st) = webhook_calls st"
  by (simp add: mark_seen_def webhook_calls_save_seen_threads list_append_def)

lemma threads_file_mark_seen:
  "threads_file (mark_seen cfg r w x st) =
     (case w of Written \<Rightarrow> Parsed (JArr (map JStr (slice_last (MAX_SEEN_THREADS cfg) (heap st r @ [x]))))
      | OpenFailed \<Rightarrow> threads_file st | DumpFailed \<Rightarrow> Malformed)"
  by (cases w) (simp_all add: mark_seen_def threads_file_save_seen_threads list_append_def)

lemma slice_last_snoc_mem: "x \<in> set (slice_last n (xs @ [x]))"
  by (simp add: slice_last_def)

lemma length_slice_last: "0 < n \<Longrightarrow> length (slice_last n xs) \<le> n"
  by (simp add: slice_last_def)

lemma slice_last_idem_append:
  "slice_last n (slice_last n zs @ ys) = slice_last n (zs @ ys)"
proof (cases "n = 0 \<or> length zs \<le> n")
  case True
  then show ?thesis by (auto simp: slice_last_def)
next
  case False
  then have n: "0 < n" "n < length zs" by auto
  then have "length zs + length ys - (length zs - n + n) + (length zs - n) = length zs + length ys - n"
    by arith
  with n show ?thesis by (simp add: slice_last_def)
qed

lemma heap_fold_mark_seen:
  "ops \<noteq> [] \<Longrightarrow>
   heap (fold (\<lambda>(x, w). mark_seen cfg r w x) ops st) r =
     slice_last (MAX_SEEN_THREADS cfg) (heap st r @ map fst ops)"
proof (induction ops rule: rev_induct)
  case Nil
  then show ?case by simp
next
  case (snoc op ops)
  obtain x w where op: "op = (x, w)" by (cases op)
  show ?case
  proof (cases "ops = []")
    case True
    then show ?thesis by (simp add: op heap_mark_seen)
  next
    case False
    with snoc.IH show ?thesis
      by (simp add: op heap_mark_seen slice_last_idem_append)
  qed
qed


text \<open>
  Claim C6. Whatever the state of the file, \<^verbatim>\<open>load_seen_threads\<close> returns a value and
  raises nothing: the empty list when the file is absent, unreadable or not JSON, and
  the parsed value when the file parses (the stored list of ids, when that is what the
  file holds).
\<close>

theorem load_seen_threads_never_raises:
  "load_seen_threads f = (case f of Parsed v \<Rightarrow> v | _ \<Rightarrow> JArr [])"
  by (cases f) (simp_all add: load_seen_threads_def path_exists_def open_and_load_def)

text \<open>The three failing states and a stored list of two ids.\<close>

theorem load_seen_threads_never_raises_witness:
  "load_seen_threads Absent = JArr [] \<and> load_seen_threads Unreadable = JArr []
   \<and> load_seen_threads Malformed = JArr []
   \<and> load_seen_threads (Parsed (JArr [JStr ''7'', JStr ''8''])) = JArr [JStr ''7'', JStr ''8'']"
  using load_seen_threads_never_raises [of Absent] load_seen_threads_never_raises [of Unreadable]
    load_seen_threads_never_raises [of Malformed]
    load_seen_threads_never_raises [of "Parsed (JArr [JStr ''7'', JStr ''8''])"]
  by simp

text \<open>
  Claim C10. \<^verbatim>\<open>save_seen_threads\<close> cuts the list object it is given down to its last
  \<^verbatim>\<open>MAX_SEEN_THREADS\<close> entries whatever the write then does, and a successful write
  stores the list as cut. So after a thread is marked seen, and after any number of
  them are, the list that the loop holds has at most \<^verbatim>\<open>MAX_SEEN_THREADS\<close> entries:
  the most recent ones of everything appended, also when every write fails.
\<close>

theorem mark_seen_truncates_in_memory:
  assumes "0 < MAX_SEEN_THREADS cfg"
  shows "heap (save_seen_threads cfg r w st) r
           = drop (length (heap st r) - MAX_SEEN_THREADS cfg) (heap st r)
       \<and> threads_file (save_seen_threads cfg r Written st)
           = Parsed (JArr (map JStr (heap (save_seen_threads cfg r Written st) r)))
       \<and> heap (mark_seen cfg r w x st) r
           = drop (length (heap st r @ [x]) - MAX_SEEN_THREADS cfg) (heap st r @ [x])
       \<and> length (heap (mark_seen cfg r w x st) r) \<le> MAX_SEEN_THREADS cfg
       \<and> (ops \<noteq> [] \<longrightarrow>
            heap (fold (\<lambda>(x, w). mark_seen cfg r w x) ops st) r
              = drop (length (heap st r @ map fst ops) - MAX_SEEN_THREADS cfg) (heap st r @ map fst ops))"
proof -
  have 1: "heap (save_seen_threads cfg r w st) r
           = drop (length (heap st r) - MAX_SEEN_THREADS cfg) (heap st r)"
    using assms by (simp add: heap_save_seen_threads slice_last_def)
  have 2: "threads_file (save_seen_threads cfg r Written st)
           = Parsed (JArr (map JStr (heap (save_seen_threads cfg r Written st) r)))"
    by (simp add: heap_save_seen_threads threads_file_save_seen_threads)
  have 3: "heap (mark_seen cfg r w x st) r
           = drop (length (heap st r @ [x]) - MAX_SEEN_THREADS cfg) (heap st r @ [x])"
    using assms by (simp add: heap_mark_seen slice_last_def)
  have 4: "length (heap (mark_seen cfg r w x st) r) \<le> MAX_SEEN_THREADS cfg"
    using assms by (simp add: heap_mark_seen length_slice_last)
  have 5: "ops \<noteq> [] \<longrightarrow>
            heap (fold (\<lambda>(x, w). mark_seen cfg r w x) ops st) r
              = drop (length (heap st r @ map fst ops) - MAX_SEEN_THREADS cfg) (heap st r @ map fst ops)"
    using assms by (simp add: heap_fold_mark_seen slice_last_def)
  from 1 2 3 4 5 show ?thesis by blast
qed

text \<open>With a bound of 2 and two failing writes out of three, the list in memory is the last two ids.\<close>

theorem mark_seen_truncates_in_memory_witness:
  "0 < MAX_SEEN_THREADS two_cfg
   \<and> heap (fold (\<lambda>(x, w). mark_seen two_cfg 0 w x)
        [(''1'', Written), (''2'', OpenFailed), (''3'', DumpFailed)] empty_state) 0 = [''2'', ''3'']"
  using mark_seen_truncates_in_memory [of two_cfg 0 DumpFailed empty_state "''3''"
      "[(''1'', Written), (''2'', OpenFailed), (''3'', DumpFailed)]"]
  by (simp add: two_cfg_def empty_state_def)

lemma file_fold_mark_seen_last:
  "threads_file (fold (\<lambda>(x, w). mark_seen cfg r w x) (ops @ [(x, Written)]) st) =
     Parsed (JArr (map JStr (slice_last (MAX_SEEN_THREADS cfg) (heap st r @ map fst ops @ [x]))))"
proof (cases "ops = []")
  case True
  then show ?thesis by (simp add: threads_file_mark_seen)
next
  case False
  then show ?thesis
    by (simp add: threads_file_mark_seen heap_fold_mark_seen slice_last_idem_append)
qed

lemma file_fold_mark_seen_bounded:
  "0 < MAX_SEEN_THREADS cfg \<Longrightarrow> Written \<in> snd ` set ops \<Longrightarrow>
   threads_file (fold (\<lambda>(x, w). mark_seen cfg r w x) ops st) = Malformed
   \<or> (\<exists>ids. threads_file (fold (\<lambda>(x, w). mark_seen cfg r w x) ops st) = Parsed (JArr (map JStr ids))
        \<and> length ids \<le> MAX_SEEN_THREADS cfg)"
proof (induction ops rule: rev_induct)
  case Nil
  then show ?case by simp
next
  case (snoc op ops)
  obtain x w where op: "op = (x, w)" by (cases op)
  show ?case
  proof (cases w)
    case Written
    then show ?thesis
      using snoc.prems(1) by (auto simp: op threads_file_mark_seen length_slice_last)
  next
    case OpenFailed
    with snoc.prems op have "Written \<in> snd ` set ops" by auto
    with snoc.IH snoc.prems(1) show ?thesis
      by (simp add: op OpenFailed threads_file_mark_seen)
  next
    case DumpFailed
    then show ?thesis by (simp add: op threads_file_mark_seen)
  qed
qed

text \<open>
  Claim C2. After any sequence of ids is marked seen, each with its own write result:
  when the last write succeeded, the file holds exactly the last \<^verbatim>\<open>MAX_SEEN_THREADS\<close>
  of the ids recorded (the list at the start followed by the new ids, oldest dropped
  first); and once some write has succeeded, the file is a list of at most
  \<^verbatim>\<open>MAX_SEEN_THREADS\<close> ids, unless a later write broke off halfway and left it
  unparseable.
\<close>

theorem persisted_sequence_bounded_fifo:
  assumes "0 < MAX_SEEN_THREADS cfg"
      and "st' = fold (\<lambda>(x, w). mark_seen cfg r w x) ops st"
      and "recorded = heap st r @ map fst ops"
  shows "(ops \<noteq> [] \<and> snd (last ops) = Written \<longrightarrow>
            threads_file st' = Parsed (JArr (map JStr
               (drop (length recorded - MAX_SEEN_THREADS cfg) recorded))))
       \<and> (Written \<in> snd ` set ops \<longrightarrow>
            threads_file st' = Malformed
            \<or> (\<exists>ids. threads_file st' = Parsed (JArr (map JStr ids))
                 \<and> length ids \<le> MAX_SEEN_THREADS cfg))"
proof -
  have a: "threads_file st' = Parsed (JArr (map JStr
               (drop (length recorded - MAX_SEEN_THREADS cfg) recorded)))"
    if "ops \<noteq> []" "snd (last ops) = Written"
  proof -
    from that obtain ops0 x where ops: "ops = ops0 @ [(x, Written)]"
      by (metis append_butlast_last_id prod.collapse)
    have "threads_file st' = Parsed (JArr (map JStr
            (slice_last (MAX_SEEN_THREADS cfg) (heap st r @ map fst ops0 @ [x]))))"
      unfolding assms(2) ops by (rule file_fold_mark_seen_last)
    moreover have "recorded = heap st r @ map fst ops0 @ [x]"
      by (simp add: assms(3) ops)
    ultimately show ?thesis
      using assms(1) by (simp only: slice_last_def) simp
  qed
  have b: "threads_file st' = Malformed
            \<or> (\<exists>ids. threads_file st' = Parsed (JArr (map JStr ids))
                 \<and> length ids \<le> MAX_SEEN_THREADS cfg)"
    if "Written \<in> snd ` set ops"
    using file_fold_mark_seen_bounded [OF assms(1) that] assms(2) by simp
  from a b show ?thesis by blast
qed

text \<open>The scenario of the specification: bound 2, ids 1, 2, 3 recorded in order.\<close>

theorem persisted_sequence_bounded_fifo_witness:
  "0 < MAX_SEEN_THREADS two_cfg
   \<and> threads_file (fold (\<lambda>(x, w). mark_seen two_cfg 0 w x)
        [(''1'', Written), (''2'', Written), (''3'', Written)] empty_state)
      = Parsed (JArr [JStr ''2'', JStr ''3''])"
  using persisted_sequence_bounded_fifo [of two_cfg
      "fold (\<lambda>(x, w). mark_seen two_cfg 0 w x) [(''1'', Written), (''2'', Written), (''3'', Written)] empty_state"
      0 "[(''1'', Written), (''2'', Written), (''3'', Written)]" empty_state
      "[''1'', ''2'', ''3'']"]
  by (simp add: two_cfg_def empty_state_def)

section \<open>Properties of the pass over the thread elements and of the loop\<close>

lemma strip_literals: "strip ''A'' = ''A''" "strip ''Unknown'' = ''Unknown''"
  "strip ''Untitled Thread'' = ''Untitled Thread''" "strip [] = []"
  by (simp_all add: strip_def py_isspace_def)

lemma extract_native_element:
  "extract_thread_data (native_element s) =
     Some \<lparr>id' = Some s, title = ''A'', author = ''Unknown'', content = [],
           url = DISCORD_FORUM_URL @ ''/threads/'' @ s, timestamp = ''2024-01-01T00:00:00Z''\<rparr>"
  by (simp add: extract_thread_data_def extract_body_def native_element_def text_or_def
      id_and_url_def timestamp_of_def strip_literals str_opt_def)

lemma thread_id_of_native:
  "s \<noteq> [] \<Longrightarrow> thread_id_of h \<lparr>id' = Some s, title = t, author = a, content = c, url = u, timestamp = ts\<rparr> = s"
  by (simp add: thread_id_of_def truthy_def)

lemma process_thread_el_failed:
  "extract_thread_data (element c) = None \<Longrightarrow> process_thread_el cfg h r c st = st"
  by (simp add: process_thread_el_def)

lemma process_thread_el_blocked:
  "extract_thread_data (element c) = Some d \<Longrightarrow> thread_id_of h d = announcements_thread_id \<Longrightarrow>
   process_thread_el cfg h r c st = mark_seen cfg r (write_result c) announcements_thread_id st"
  by (simp add: process_thread_el_def)

lemma process_thread_el_new:
  "extract_thread_data (element c) = Some d \<Longrightarrow> thread_id_of h d \<noteq> announcements_thread_id \<Longrightarrow>
   thread_id_of h d \<notin> set (heap st r) \<Longrightarrow>
   process_thread_el cfg h r c st =
     mark_seen cfg r (write_result c) (thread_id_of h d) (post_new_thread_webhook cfg d (post_result c) st)"
  by (simp add: process_thread_el_def)

lemma process_thread_el_seen:
  "extract_thread_data (element c) = Some d \<Longrightarrow> thread_id_of h d \<noteq> announcements_thread_id \<Longrightarrow>
   thread_id_of h d \<in> set (heap st r) \<Longrightarrow>
   process_thread_el cfg h r c st = st"
  by (simp add: process_thread_el_def)

lemma heap_post_new_thread_webhook: "heap (post_new_thread_webhook cfg d p st) = heap st"
  by (simp add: post_new_thread_webhook_def)

lemma webhook_calls_post_new_thread_webhook:
  "webhook_calls (post_new_thread_webhook cfg d p st) = webhook_calls st @
     [\<lparr>call_thread = d, call_payload = build_payload cfg d, call_outcome = p, call_returned = send_payload p\<rparr>]"
  by (simp add: post_new_thread_webhook_def)

text \<open>
  Claim C3. A candidate whose id is the announcements thread id causes no webhook call
  and is appended to the seen list, which is then cut and saved, so the id is in the
  list afterwards. The list before the step plays no part: the test at line 168 comes
  before the membership test at line 174, and the id is appended again when it is
  already there.
\<close>

theorem announcements_thread_suppressed:
  assumes "extract_thread_data (element c) = Some d"
      and "thread_id_of h d = announcements_thread_id"
  shows "webhook_calls (process_thread_el cfg h r c st) = webhook_calls st
       \<and> heap (process_thread_el cfg h r c st) r
           = slice_last (MAX_SEEN_THREADS cfg) (heap st r @ [announcements_thread_id])
       \<and> announcements_thread_id \<in> set (heap (process_thread_el cfg h r c st) r)"
  by (simp add: process_thread_el_blocked [OF assms] webhook_calls_mark_seen heap_mark_seen
      slice_last_snoc_mem)

text \<open>
  The announcements thread, sighted when its id is already in the list.
\<close>

theorem announcements_thread_suppressed_witness:
  "webhook_calls (process_thread_el two_cfg zero_hash 0 (native_candidate announcements_thread_id)
      seen_announcements_state) = []
   \<and> heap (process_thread_el two_cfg zero_hash 0 (native_candidate announcements_thread_id)
      seen_announcements_state) 0 = [announcements_thread_id, announcements_thread_id]"
  using announcements_thread_suppressed [of "native_candidate announcements_thread_id"
      "the (extract_thread_data (native_element announcements_thread_id))" zero_hash two_cfg 0
      seen_announcements_state]
  by (simp add: native_candidate_def extract_native_element thread_id_of_native
      seen_announcements_state_def two_cfg_def slice_last_def announcements_thread_id_def)

text \<open>
  Claim C7. For a candidate whose id is not the announcements id and not in the seen
  list, the step makes one webhook call, whatever \<^verbatim>\<open>requests.post\<close> does (a status
  code of any value, or a raise, which \<^verbatim>\<open>send_payload\<close> turns into \<^verbatim>\<open>None\<close>), and
  then appends the id to the seen list. The step returns a state in every case, and a
  second sighting of the same element right after it changes nothing: no second call.
\<close>

theorem new_thread_one_attempt_then_seen:
  assumes "extract_thread_data (element c) = Some d"
      and "thread_id_of h d \<noteq> announcements_thread_id"
      and "thread_id_of h d \<notin> set (heap st r)"
      and "element c2 = element c"
  shows "webhook_calls (process_thread_el cfg h r c st)
           = webhook_calls st @
               [\<lparr>call_thread = d, call_payload = build_payload cfg d,
                 call_outcome = post_result c, call_returned = send_payload (post_result c)\<rparr>]
       \<and> heap (process_thread_el cfg h r c st) r
           = slice_last (MAX_SEEN_THREADS cfg) (heap st r @ [thread_id_of h d])
       \<and> thread_id_of h d \<in> set (heap (process_thread_el cfg h r c st) r)
       \<and> process_thread_el cfg h r c2 (process_thread_el cfg h r c st)
           = process_thread_el cfg h r c st"
proof -
  let ?st' = "process_thread_el cfg h r c st"
  have st': "?st' = mark_seen cfg r (write_result c) (thread_id_of h d)
                     (post_new_thread_webhook cfg d (post_result c) st)"
    by (rule process_thread_el_new [OF assms(1,2,3)])
  have calls: "webhook_calls ?st' = webhook_calls st @
               [\<lparr>call_thread = d, call_payload = build_payload cfg d,
                 call_outcome = post_result c, call_returned = send_payload (post_result c)\<rparr>]"
    by (simp add: st' webhook_calls_mark_seen webhook_calls_post_new_thread_webhook)
  have hp: "heap ?st' r = slice_last (MAX_SEEN_THREADS cfg) (heap st r @ [thread_id_of h d])"
    by (simp add: st' heap_mark_seen heap_post_new_thread_webhook)
  have mem: "thread_id_of h d \<in> set (heap ?st' r)"
    by (simp only: hp slice_last_snoc_mem)
  have "extract_thread_data (element c2) = Some d"
    using assms(1,4) by simp
  then have again: "process_thread_el cfg h r c2 ?st' = ?st'"
    using assms(2) mem by (rule process_thread_el_seen)
  from calls hp mem again show ?thesis by blast
qed

text \<open>
  A post that raises: one call is logged with no status, the id is recorded, and the
  next sighting is skipped.
\<close>

theorem new_thread_one_attempt_then_seen_witness:
  "map call_returned (webhook_calls (process_thread_el two_cfg zero_hash 0 failing_post_candidate empty_state)) = [None]
   \<and> heap (process_thread_el two_cfg zero_hash 0 failing_post_candidate empty_state) 0 = [''5'']
   \<and> process_thread_el two_cfg zero_hash 0 (native_candidate ''5'')
        (process_thread_el two_cfg zero_hash 0 failing_post_candidate empty_state)
      = process_thread_el two_cfg zero_hash 0 failing_post_candidate empty_state"
  using new_thread_one_attempt_then_seen [of failing_post_candidate
      "the (extract_thread_data (native_element ''5''))" zero_hash empty_state 0
      "native_candidate ''5''" two_cfg]
  by (simp add: failing_post_candidate_def native_candidate_def extract_native_element
      thread_id_of_native empty_state_def two_cfg_def slice_last_def announcements_thread_id_def
      send_payload_def)

text \<open>
  Claim C8. Two extracted records without a native id (\<^verbatim>\<open>None\<close> or empty) and with
  the same url and title get the same id, \<^verbatim>\<open>fallback:\<close> followed by the hash of the
  url and title concatenated, for the hash function of the running process.
\<close>

theorem fallback_id_stable:
  assumes "\<not> truthy (id' d1)" and "\<not> truthy (id' d2)"
      and "url d1 = url d2" and "title d1 = title d2"
  shows "thread_id_of h d1 = thread_id_of h d2
       \<and> thread_id_of h d1 = ''fallback:'' @ str_int (h (url d1 @ title d1))"
  using assms by (simp add: thread_id_of_def)

text \<open>
  Two records that differ in author, content and timestamp only.
\<close>

theorem fallback_id_stable_witness:
  "thread_id_of length_hash unidentified_1 = thread_id_of length_hash unidentified_2
   \<and> thread_id_of length_hash unidentified_1 = ''fallback:-42''"
  using fallback_id_stable [of unidentified_1 unidentified_2 length_hash]
  by (simp add: unidentified_1_def unidentified_2_def truthy_def length_hash_def str_int_def
      str_nat.simps digit_char_def thread_id_of_def)

text \<open>
  Claim C5 as stated fails: when no title element is found, the title of the extracted
  record is not \<^verbatim>\<open>Untitled\<close> (it is \<^verbatim>\<open>Untitled Thread\<close>, line 65).
\<close>

theorem missing_title_default_counterexample:
  "map_option title (extract_thread_data bare_element) \<noteq> Some ''Untitled''"
  by (simp add: extract_thread_data_def extract_body_def bare_element_def text_or_def
      id_and_url_def timestamp_of_def strip_literals)

text \<open>
  Claim C5, amended. When no lookup raises, extraction returns a record, and in it a
  title that was not found is \<^verbatim>\<open>Untitled Thread\<close>, an author that was not found is
  \<^verbatim>\<open>Unknown\<close> and a content preview that was not found is empty.
\<close>

theorem missing_fields_defaulted:
  assumes "\<not> raised (title_el el)" and "\<not> raised (author_el el)" and "\<not> raised (message_el el)"
      and "\<not> raised (container el)" and "\<not> raised (time_el el)"
  shows "\<exists>d. extract_thread_data el = Some d
           \<and> (title_el el = NotFound \<longrightarrow> title d = ''Untitled Thread'')
           \<and> (author_el el = NotFound \<longrightarrow> author d = ''Unknown'')
           \<and> (message_el el = NotFound \<longrightarrow> content d = [])"
  using assms
  by (cases "title_el el"; cases "author_el el"; cases "message_el el"; cases "container el";
      cases "time_el el")
     (simp_all add: raised_def extract_thread_data_def extract_body_def text_or_def
        id_and_url_def timestamp_of_def strip_literals)

text \<open>
  An element in which nothing is found.
\<close>

theorem missing_fields_defaulted_witness:
  "extract_thread_data bare_element =
     Some \<lparr>id' = None, title = ''Untitled Thread'', author = ''Unknown'', content = [],
           url = [], timestamp = ''2024-01-01T00:00:00Z''\<rparr>"
  using missing_fields_defaulted [of bare_element]
  by (simp add: bare_element_def raised_def extract_thread_data_def extract_body_def text_or_def
      id_and_url_def timestamp_of_def strip_literals)

lemma process_thread_elements_append:
  "process_thread_elements cfg h r (xs @ ys) st =
     process_thread_elements cfg h r ys (process_thread_elements cfg h r xs st)"
  by (simp add: process_thread_elements_def)

lemma process_thread_elements_Cons:
  "process_thread_elements cfg h r (c # cs) st =
     process_thread_elements cfg h r cs (process_thread_el cfg h r c st)"
  by (simp add: process_thread_elements_def)

lemma process_thread_elements_Nil: "process_thread_elements cfg h r [] st = st"
  by (simp add: process_thread_elements_def)

lemma extract_body_raises: "extract_body el = Inl e \<Longrightarrow> extract_thread_data el = None"
  by (simp add: extract_thread_data_def)

lemma scroll_step_quiet:
  "mouse_wheel env = None \<Longrightarrow> reload env = None \<Longrightarrow>
   \<not> returned (scroll_step env ls)
   \<and> program (final (scroll_step env ls)) = program ls
   \<and> scroll_counter (final (scroll_step env ls)) = scroll_counter ls"
  by (simp add: scroll_step_def reload_step_def returned_def final_def log_event_def)

lemma loop_iteration_quiet:
  assumes "wait_for_selector env = None" and "query_selector_all env = Inr cs"
      and "mouse_wheel env = None" and "reload env = None"
  shows "\<exists>ls'. loop_iteration cfg h r env ls = Continue ls'
           \<and> program ls' = process_thread_elements cfg h r cs (program ls)
           \<and> scroll_counter ls' = Suc (scroll_counter ls)"
proof -
  let ?ls3 = "ls\<lparr>program := process_thread_elements cfg h r cs (program ls),
              events := events ls @ [Sleep_uniform_5_12],
              scroll_counter := scroll_counter ls + 1\<rparr>"
  have it: "loop_iteration cfg h r env ls = scroll_step env ?ls3"
    using assms(1,2) by (simp add: loop_iteration_def Let_def log_event_def)
  from scroll_step_quiet [OF assms(3,4), of ?ls3]
  show ?thesis
    unfolding it by (cases "scroll_step env ?ls3") (simp_all add: returned_def final_def)
qed

lemma extract_body_vanished:
  "extract_body vanished_element = Inl (PlaywrightError OtherError)"
  by (simp add: vanished_element_def bare_element_def extract_body_def text_or_def)

lemma extract_vanished: "extract_thread_data vanished_element = None"
  by (simp add: extract_thread_data_def extract_body_vanished)

text \<open>
  Claim C9. When the extraction of one candidate raises, that candidate alone is
  skipped: the step leaves the state as it was, and a new thread right after it is
  notified and recorded. The pass over a page is the per-item step applied to every
  other candidate, before and after the failing one, in order. The loop does not
  return: in a cycle that shows the failing candidate and in the cycle after it (with
  nothing else raising) every candidate of both pages is processed, and the cycle
  counter has advanced by two.
\<close>

theorem extraction_failure_skips_only_that_candidate:
  assumes "extract_body (element bad) = Inl e"
      and "extract_thread_data (element c) = Some d"
      and "thread_id_of h d \<noteq> announcements_thread_id"
      and "thread_id_of h d \<notin> set (heap st r)"
      and "wait_for_selector env = None" and "query_selector_all env = Inr (xs @ bad # ys)"
      and "mouse_wheel env = None" and "reload env = None"
      and "wait_for_selector env2 = None" and "query_selector_all env2 = Inr zs"
      and "mouse_wheel env2 = None" and "reload env2 = None"
  shows "process_thread_el cfg h r bad st = st
       \<and> webhook_calls (process_thread_elements cfg h r [bad, c] st)
           = webhook_calls st @
               [\<lparr>call_thread = d, call_payload = build_payload cfg d,
                 call_outcome = post_result c, call_returned = send_payload (post_result c)\<rparr>]
       \<and> thread_id_of h d \<in> set (heap (process_thread_elements cfg h r [bad, c] st) r)
       \<and> process_thread_elements cfg h r (xs @ bad # ys) st
           = fold (process_thread_el cfg h r) ys (fold (process_thread_el cfg h r) xs st)
       \<and> \<not> returned (forum_monitor_loop cfg h r [env, env2] ls)
       \<and> program (final (forum_monitor_loop cfg h r [env, env2] ls))
           = fold (process_thread_el cfg h r) zs
               (fold (process_thread_el cfg h r) ys
                 (fold (process_thread_el cfg h r) xs (program ls)))
       \<and> scroll_counter (final (forum_monitor_loop cfg h r [env, env2] ls)) = scroll_counter ls + 2"
proof -
  have skip: "process_thread_el cfg h r bad s = s" for s
    by (rule process_thread_el_failed) (rule extract_body_raises [OF assms(1)])
  have pass: "process_thread_elements cfg h r (xs @ bad # ys) s
           = fold (process_thread_el cfg h r) ys (fold (process_thread_el cfg h r) xs s)" for s
    by (simp add: process_thread_elements_def skip)
  have next_el: "process_thread_elements cfg h r [bad, c] st
           = mark_seen cfg r (write_result c) (thread_id_of h d)
               (post_new_thread_webhook cfg d (post_result c) st)"
    by (simp add: process_thread_elements_def skip process_thread_el_new [OF assms(2,3,4)])
  have calls: "webhook_calls (process_thread_elements cfg h r [bad, c] st)
           = webhook_calls st @
               [\<lparr>call_thread = d, call_payload = build_payload cfg d,
                 call_outcome = post_result c, call_returned = send_payload (post_result c)\<rparr>]"
    by (simp add: next_el webhook_calls_mark_seen webhook_calls_post_new_thread_webhook)
  have mem: "thread_id_of h d \<in> set (heap (process_thread_elements cfg h r [bad, c] st) r)"
    by (simp add: next_el heap_mark_seen slice_last_snoc_mem)
  from loop_iteration_quiet [OF assms(5,6,7,8), of cfg h r ls]
  obtain ls1 where it1: "loop_iteration cfg h r env ls = Continue ls1"
    and p1: "program ls1 = process_thread_elements cfg h r (xs @ bad # ys) (program ls)"
    and s1: "scroll_counter ls1 = Suc (scroll_counter ls)"
    by blast
  from loop_iteration_quiet [OF assms(9,10,11,12), of cfg h r ls1]
  obtain ls2 where it2: "loop_iteration cfg h r env2 ls1 = Continue ls2"
    and p2: "program ls2 = process_thread_elements cfg h r zs (program ls1)"
    and s2: "scroll_counter ls2 = Suc (scroll_counter ls1)"
    by blast
  have loop: "forum_monitor_loop cfg h r [env, env2] ls = Continue ls2"
    by (simp add: it1 it2)
  have prog: "program ls2 = fold (process_thread_el cfg h r) zs
               (fold (process_thread_el cfg h r) ys
                 (fold (process_thread_el cfg h r) xs (program ls)))"
    by (simp only: p2 p1 pass) (simp add: process_thread_elements_def)
  from skip calls mem pass loop prog s1 s2 show ?thesis
    by (simp add: returned_def final_def)
qed

text \<open>
  A candidate whose author lookup raises, between two new threads, and a second cycle
  with a third new thread: all three are notified, and the loop has not returned.
\<close>

theorem extraction_failure_skips_only_that_candidate_witness:
  "map (id' \<circ> call_thread) (webhook_calls (program (final (forum_monitor_loop two_cfg zero_hash 0
        [quiet_env [native_candidate ''4'', vanished_candidate, native_candidate ''5''],
         quiet_env [native_candidate ''6'']] start))))
     = [Some ''4'', Some ''5'', Some ''6'']
   \<and> \<not> returned (forum_monitor_loop two_cfg zero_hash 0
        [quiet_env [native_candidate ''4'', vanished_candidate, native_candidate ''5''],
         quiet_env [native_candidate ''6'']] start)
   \<and> scroll_counter (final (forum_monitor_loop two_cfg zero_hash 0
        [quiet_env [native_candidate ''4'', vanished_candidate, native_candidate ''5''],
         quiet_env [native_candidate ''6'']] start)) = 2"
  using extraction_failure_skips_only_that_candidate [of vanished_candidate
      "PlaywrightError OtherError" "native_candidate ''5''"
      "the (extract_thread_data (native_element ''5''))" zero_hash empty_state 0
      "quiet_env [native_candidate ''4'', vanished_candidate, native_candidate ''5'']"
      "[native_candidate ''4'']" "[native_candidate ''5'']"
      "quiet_env [native_candidate ''6'']" "[native_candidate ''6'']" two_cfg start]
  by (simp add: vanished_candidate_def native_candidate_def quiet_env_def extract_body_vanished
      extract_vanished extract_native_element thread_id_of_native announcements_thread_id_def
      process_thread_elements_def process_thread_el_def two_cfg_def slice_last_def mark_seen_def
      save_seen_threads_def list_append_def post_new_thread_webhook_def start_def empty_state_def
      Let_def)

text \<open>
  Claim C4, evaluated on the code. When \<^verbatim>\<open>wait_for_selector\<close> raises Playwright's
  \<^verbatim>\<open>TimeoutError\<close>, the handler at line 207 catches it, since \<^verbatim>\<open>TimeoutError\<close> derives
  from \<^verbatim>\<open>Error\<close>: the iteration returns, and so does the loop. Nothing is slept and no
  later cycle runs.
\<close>

theorem selector_timeout_returns_from_loop:
  "loop_iteration cfg h r (env\<lparr>wait_for_selector := Some (PlaywrightError TimeoutError)\<rparr>) ls = Return ls
   \<and> forum_monitor_loop cfg h r (env\<lparr>wait_for_selector := Some (PlaywrightError TimeoutError)\<rparr> # envs) ls = Return ls"
  by (simp add: loop_iteration_def handle_exception_def)

lemma calls_for_mark_seen: "calls_for h t (mark_seen cfg r w x st) = calls_for h t st"
  by (simp add: calls_for_def webhook_calls_mark_seen)

lemma calls_for_post_other:
  "thread_id_of h d \<noteq> t \<Longrightarrow> calls_for h t (post_new_thread_webhook cfg d p st) = calls_for h t st"
  by (simp add: calls_for_def webhook_calls_post_new_thread_webhook)

lemma calls_for_post_same:
  "thread_id_of h d = t \<Longrightarrow> calls_for h t (post_new_thread_webhook cfg d p st) = calls_for h t st @
     [\<lparr>call_thread = d, call_payload = build_payload cfg d, call_outcome = p, call_returned = send_payload p\<rparr>]"
  by (simp add: calls_for_def webhook_calls_post_new_thread_webhook)

lemma fold_process_thread_elements:
  "fold (process_thread_elements cfg h r) cycles st = process_thread_elements cfg h r (concat cycles) st"
  by (induction cycles arbitrary: st) (simp_all add: process_thread_elements_Nil process_thread_elements_append)

lemma slice_last_keeps_suffix:
  "length ys \<le> n \<Longrightarrow> \<exists>P'. slice_last n (P @ ys) = P' @ ys"
proof (cases "n = 0")
  case True
  then show ?thesis by (simp add: slice_last_def)
next
  case False
  assume "length ys \<le> n"
  then have "length P + length ys - n \<le> length P" by simp
  then have "drop (length P + length ys - n) (P @ ys) = drop (length P + length ys - n) P @ ys"
    by simp
  with False show ?thesis by (simp add: slice_last_def)
qed

lemma others_mark_seen: "calls_for_others h t (mark_seen cfg r w x st) = calls_for_others h t st"
  by (simp add: calls_for_others_def webhook_calls_mark_seen)

lemma others_post_other:
  "thread_id_of h d \<noteq> t \<Longrightarrow>
   length (calls_for_others h t (post_new_thread_webhook cfg d p st)) = Suc (length (calls_for_others h t st))"
  by (simp add: calls_for_others_def webhook_calls_post_new_thread_webhook)

lemma others_post_same:
  "thread_id_of h d = t \<Longrightarrow>
   calls_for_others h t (post_new_thread_webhook cfg d p st) = calls_for_others h t st"
  by (simp add: calls_for_others_def webhook_calls_post_new_thread_webhook)

text \<open>
  One step, for a candidate that is not the announcements thread, while \<open>t\<close> is in the
  list followed by the ids \<open>S\<close>: every append goes with one webhook call for another id.
\<close>

lemma step_keeps_seen_id:
  assumes heap: "heap st r = P @ t # S"
      and t: "t \<noteq> announcements_thread_id"
      and c: "candidate_id h c \<noteq> Some announcements_thread_id"
  shows "length (calls_for_others h t st) \<le> length (calls_for_others h t (process_thread_el cfg h r c st))
       \<and> (length S + (length (calls_for_others h t (process_thread_el cfg h r c st))
                        - length (calls_for_others h t st)) < MAX_SEEN_THREADS cfg \<longrightarrow>
            calls_for h t (process_thread_el cfg h r c st) = calls_for h t st
            \<and> (\<exists>P' S'. heap (process_thread_el cfg h r c st) r = P' @ t # S'
                  \<and> length S' = length S + (length (calls_for_others h t (process_thread_el cfg h r c st))
                        - length (calls_for_others h t st))))"
proof (cases "extract_thread_data (element c)")
  case None
  then have "process_thread_el cfg h r c st = st" by (rule process_thread_el_failed)
  with heap show ?thesis by auto
next
  case (Some d)
  with c have na: "thread_id_of h d \<noteq> announcements_thread_id"
    by (simp add: candidate_id_def)
  show ?thesis
  proof (cases "thread_id_of h d \<in> set (heap st r)")
    case True
    with Some na have "process_thread_el cfg h r c st = st" by (simp add: process_thread_el_seen)
    with heap show ?thesis by auto
  next
    case False
    then have ne: "thread_id_of h d \<noteq> t" using heap by auto
    have st': "process_thread_el cfg h r c st =
            mark_seen cfg r (write_result c) (thread_id_of h d)
              (post_new_thread_webhook cfg d (post_result c) st)"
      using Some na False by (rule process_thread_el_new)
    have oth: "length (calls_for_others h t (process_thread_el cfg h r c st))
                 = Suc (length (calls_for_others h t st))"
      by (simp add: st' others_mark_seen others_post_other ne)
    have calls: "calls_for h t (process_thread_el cfg h r c st) = calls_for h t st"
      by (simp add: st' calls_for_mark_seen calls_for_post_other ne)
    have hp: "heap (process_thread_el cfg h r c st) r
                = slice_last (MAX_SEEN_THREADS cfg) (P @ (t # S @ [thread_id_of h d]))"
      by (simp add: st' heap_mark_seen heap_post_new_thread_webhook heap)
    have keep: "\<exists>P' S'. heap (process_thread_el cfg h r c st) r = P' @ t # S'
                  \<and> length S' = length S + 1"
      if "length S + 1 < MAX_SEEN_THREADS cfg"
    proof -
      from that have "length (t # S @ [thread_id_of h d]) \<le> MAX_SEEN_THREADS cfg" by simp
      from slice_last_keeps_suffix [OF this, of P]
      obtain P' where "slice_last (MAX_SEEN_THREADS cfg) (P @ (t # S @ [thread_id_of h d]))
                         = P' @ (t # S @ [thread_id_of h d])" by blast
      with hp have "heap (process_thread_el cfg h r c st) r = P' @ t # (S @ [thread_id_of h d])"
        by simp
      then show ?thesis by (intro exI [of _ P'] exI [of _ "S @ [thread_id_of h d]"]) simp
    qed
    from oth calls keep show ?thesis by simp
  qed
qed

lemma run_keeps_seen_id:
  assumes heap: "heap st r = P @ t # S"
      and t: "t \<noteq> announcements_thread_id"
      and cs: "Some announcements_thread_id \<notin> set (map (candidate_id h) cs)"
  shows "length (calls_for_others h t st) \<le> length (calls_for_others h t (process_thread_elements cfg h r cs st))
       \<and> (length S + (length (calls_for_others h t (process_thread_elements cfg h r cs st))
                        - length (calls_for_others h t st)) < MAX_SEEN_THREADS cfg \<longrightarrow>
            calls_for h t (process_thread_elements cfg h r cs st) = calls_for h t st
            \<and> (\<exists>P' S'. heap (process_thread_elements cfg h r cs st) r = P' @ t # S'
                  \<and> length S' = length S + (length (calls_for_others h t (process_thread_elements cfg h r cs st))
                        - length (calls_for_others h t st))))"
  using cs
proof (induction cs rule: rev_induct)
  case Nil
  show ?case using heap by (auto simp: process_thread_elements_Nil)
next
  case (snoc c cs)
  let ?s0 = "process_thread_elements cfg h r cs st"
  let ?s1 = "process_thread_el cfg h r c ?s0"
  let ?o = "\<lambda>s. length (calls_for_others h t s)"
  have run: "process_thread_elements cfg h r (cs @ [c]) st = ?s1"
    by (simp add: process_thread_elements_append process_thread_elements_Cons process_thread_elements_Nil)
  from snoc.prems have cs': "Some announcements_thread_id \<notin> set (map (candidate_id h) cs)"
    and c': "candidate_id h c \<noteq> Some announcements_thread_id" by auto
  note ih = snoc.IH [OF cs']
  have mono0: "?o st \<le> ?o ?s0"
    using ih by (rule conjunct1)
  have IH: "calls_for h t ?s0 = calls_for h t st
            \<and> (\<exists>P' S'. heap ?s0 r = P' @ t # S' \<and> length S' = length S + (?o ?s0 - ?o st))"
    if "length S + (?o ?s0 - ?o st) < MAX_SEEN_THREADS cfg"
    using ih that by blast
  have grow: "?o ?s0 \<le> ?o ?s1"
  proof (cases "extract_thread_data (element c)")
    case None
    then show ?thesis by (simp add: process_thread_el_failed)
  next
    case (Some d)
    show ?thesis
      by (simp add: process_thread_el_def Some Let_def others_mark_seen calls_for_others_def
          webhook_calls_post_new_thread_webhook webhook_calls_mark_seen)
  qed
  have mono1: "?o st \<le> ?o ?s1" using mono0 grow by simp
  have main: "calls_for h t ?s1 = calls_for h t st
            \<and> (\<exists>P' S'. heap ?s1 r = P' @ t # S' \<and> length S' = length S + (?o ?s1 - ?o st))"
    if bound: "length S + (?o ?s1 - ?o st) < MAX_SEEN_THREADS cfg"
  proof -
    from bound grow have "length S + (?o ?s0 - ?o st) < MAX_SEEN_THREADS cfg" by simp
    from IH [OF this] obtain P0 S0 where c0: "calls_for h t ?s0 = calls_for h t st"
      and h0: "heap ?s0 r = P0 @ t # S0" and l0: "length S0 = length S + (?o ?s0 - ?o st)"
      by blast
    from l0 bound mono0 grow have "length S0 + (?o ?s1 - ?o ?s0) < MAX_SEEN_THREADS cfg" by simp
    with step_keeps_seen_id [OF h0 t c', of cfg]
    obtain P1 S1 where c1: "calls_for h t ?s1 = calls_for h t ?s0"
      and h1: "heap ?s1 r = P1 @ t # S1" and l1: "length S1 = length S0 + (?o ?s1 - ?o ?s0)"
      by blast
    from l0 l1 mono0 grow have "length S1 = length S + (?o ?s1 - ?o st)" by simp
    with c0 c1 h1 show ?thesis by auto
  qed
  from mono1 main show ?case by (simp only: run) blast
qed

lemma others_grow_el:
  "length (calls_for_others h t st) \<le> length (calls_for_others h t (process_thread_el cfg h r c st))"
proof (cases "extract_thread_data (element c)")
  case None
  then show ?thesis by (simp add: process_thread_el_failed)
next
  case (Some d)
  show ?thesis
    by (simp add: process_thread_el_def Some Let_def others_mark_seen calls_for_others_def
        webhook_calls_post_new_thread_webhook webhook_calls_mark_seen)
qed

lemma others_grow:
  "length (calls_for_others h t st) \<le> length (calls_for_others h t (process_thread_elements cfg h r cs st))"
proof (induction cs arbitrary: st)
  case Nil
  show ?case by (simp add: process_thread_elements_Nil)
next
  case (Cons c cs)
  have "length (calls_for_others h t st) \<le> length (calls_for_others h t (process_thread_el cfg h r c st))"
    by (rule others_grow_el)
  also have "\<dots> \<le> length (calls_for_others h t
      (process_thread_elements cfg h r cs (process_thread_el cfg h r c st)))"
    by (rule Cons.IH)
  finally show ?case by (simp add: process_thread_elements_Cons)
qed

text \<open>
  Claim C1, amended. For a thread whose id \<open>t\<close> is not the announcements id, a sighting
  makes one webhook call and records \<open>t\<close> exactly when \<open>t\<close> is not in the seen list at
  that moment, and changes nothing when it is. Take the first such sighting, followed by
  the rest of its cycle and by any number of later cycles in which the announcements
  thread is not shown. If fewer than \<^verbatim>\<open>MAX_SEEN_THREADS\<close> webhook calls are made for
  other ids in that run (each is one append at lines 178-181), then \<open>t\<close> is never
  dropped from the list: exactly one webhook call is made for \<open>t\<close>, at the first
  sighting, and \<open>t\<close> is in the seen list at the end.
\<close>

theorem notified_once_while_recorded:
  assumes "extract_thread_data (element c) = Some d"
      and "thread_id_of h d = t"
      and "t \<noteq> announcements_thread_id"
      and "t \<notin> set (heap st r)"
      and "Some announcements_thread_id \<notin> set (map (candidate_id h) (cs @ concat cycles))"
      and "st' = fold (process_thread_elements cfg h r) ((c # cs) # cycles) st"
      and "length (calls_for_others h t st') < length (calls_for_others h t st) + MAX_SEEN_THREADS cfg"
  shows "calls_for h t st'
           = calls_for h t st @
               [\<lparr>call_thread = d, call_payload = build_payload cfg d,
                 call_outcome = post_result c, call_returned = send_payload (post_result c)\<rparr>]
       \<and> t \<in> set (heap st' r)
       \<and> (extract_thread_data (element c2) = Some d2 \<and> thread_id_of h d2 = t
            \<and> t \<in> set (heap st2 r) \<longrightarrow>
              process_thread_el cfg h r c2 st2 = st2)
       \<and> (extract_thread_data (element c2) = Some d2 \<and> thread_id_of h d2 = t
            \<and> t \<notin> set (heap st2 r) \<longrightarrow>
              calls_for h t (process_thread_el cfg h r c2 st2)
                = calls_for h t st2 @
                    [\<lparr>call_thread = d2, call_payload = build_payload cfg d2,
                      call_outcome = post_result c2, call_returned = send_payload (post_result c2)\<rparr>]
              \<and> t \<in> set (heap (process_thread_el cfg h r c2 st2) r))"
proof -
  let ?M = "MAX_SEEN_THREADS cfg"
  let ?st1 = "process_thread_el cfg h r c st"
  let ?rest = "cs @ concat cycles"
  have new: "process_thread_el cfg h r c' s =
               mark_seen cfg r (write_result c') t (post_new_thread_webhook cfg d' (post_result c') s)"
    if "extract_thread_data (element c') = Some d'" "thread_id_of h d' = t" "t \<notin> set (heap s r)"
    for c' d' s
    using process_thread_el_new [of c' d' h s r cfg] that assms(3) by simp
  have sighting: "calls_for h t (process_thread_el cfg h r c' s) = calls_for h t s @
               [\<lparr>call_thread = d', call_payload = build_payload cfg d',
                 call_outcome = post_result c', call_returned = send_payload (post_result c')\<rparr>]
             \<and> t \<in> set (heap (process_thread_el cfg h r c' s) r)"
    if "extract_thread_data (element c') = Some d'" "thread_id_of h d' = t" "t \<notin> set (heap s r)"
    for c' d' s
    by (simp add: new [OF that] calls_for_mark_seen calls_for_post_same that(2) heap_mark_seen
        slice_last_snoc_mem)
  have skipped: "process_thread_el cfg h r c' s = s"
    if "extract_thread_data (element c') = Some d'" "thread_id_of h d' = t" "t \<in> set (heap s r)"
    for c' d' s
    using process_thread_el_seen [of c' d' h s r cfg] that assms(3) by simp
  have run: "st' = process_thread_elements cfg h r ?rest ?st1"
    by (simp add: assms(6) fold_process_thread_elements process_thread_elements_Cons
        process_thread_elements_append)
  have o1: "calls_for_others h t ?st1 = calls_for_others h t st"
    by (simp add: new [OF assms(1,2,4)] others_mark_seen others_post_same assms(2))
  have "length (calls_for_others h t ?st1) \<le> length (calls_for_others h t st')"
    unfolding run by (rule others_grow)
  with assms(7) o1 have pos: "0 < ?M" by simp
  then have "length [t] \<le> ?M" by simp
  from slice_last_keeps_suffix [OF this, of "heap st r"]
  obtain P where "slice_last ?M (heap st r @ [t]) = P @ [t]" by blast
  then have h1: "heap ?st1 r = P @ t # []"
    by (simp add: new [OF assms(1,2,4)] heap_mark_seen heap_post_new_thread_webhook)
  from assms(7) o1 pos
  have bound: "length ([]::string list) + (length (calls_for_others h t (process_thread_elements cfg h r ?rest ?st1))
                  - length (calls_for_others h t ?st1)) < ?M"
    unfolding run by simp
  from run_keeps_seen_id [OF h1 assms(3,5), of cfg] bound
  obtain P' S' where c': "calls_for h t (process_thread_elements cfg h r ?rest ?st1) = calls_for h t ?st1"
    and h': "heap (process_thread_elements cfg h r ?rest ?st1) r = P' @ t # S'"
    by blast
  from sighting [OF assms(1,2,4)] c' have a: "calls_for h t st'
           = calls_for h t st @
               [\<lparr>call_thread = d, call_payload = build_payload cfg d,
                 call_outcome = post_result c, call_returned = send_payload (post_result c)\<rparr>]"
    unfolding run by simp
  from h' have b: "t \<in> set (heap st' r)"
    unfolding run by simp
  from a b sighting skipped show ?thesis by blast
qed

text \<open>
  The scenario of the specification, id 5 twice in one cycle, within a page of three
  threads shown in three cycles at the bound of 20; and the file after the scenario.
\<close>

theorem notified_once_while_recorded_witness:
  "map (id' \<circ> call_thread) (calls_for zero_hash ''5''
      (fold (process_thread_elements (source_config None) zero_hash 0)
         [[native_candidate ''5'', native_candidate ''5'', native_candidate ''6'', native_candidate ''7''],
          [native_candidate ''5'', native_candidate ''6'', native_candidate ''7''],
          [native_candidate ''5'', native_candidate ''6'', native_candidate ''7'']]
         empty_state)) = [Some ''5'']
   \<and> threads_file (fold (process_thread_elements (source_config None) zero_hash 0)
         [[native_candidate ''5'', native_candidate ''5'']] empty_state) = Parsed (JArr [JStr ''5''])"
  using notified_once_while_recorded [of "native_candidate ''5''"
      "the (extract_thread_data (native_element ''5''))" zero_hash "''5''" empty_state 0
      "[native_candidate ''5'', native_candidate ''6'', native_candidate ''7'']"
      "[[native_candidate ''5'', native_candidate ''6'', native_candidate ''7''],
        [native_candidate ''5'', native_candidate ''6'', native_candidate ''7'']]"
      "fold (process_thread_elements (source_config None) zero_hash 0)
         [[native_candidate ''5'', native_candidate ''5'', native_candidate ''6'', native_candidate ''7''],
          [native_candidate ''5'', native_candidate ''6'', native_candidate ''7''],
          [native_candidate ''5'', native_candidate ''6'', native_candidate ''7'']]
         empty_state"
      "source_config None"]
  apply (simp add: native_candidate_def extract_native_element thread_id_of_native candidate_id_def
      announcements_thread_id_def empty_state_def source_config_def send_payload_def)
  apply (simp add: process_thread_elements_def process_thread_el_def
      extract_native_element thread_id_of_native announcements_thread_id_def
      slice_last_def mark_seen_def save_seen_threads_def list_append_def
      post_new_thread_webhook_def calls_for_def calls_for_others_def Let_def)
  done

text \<open>
  Claim C1 as stated fails. With the bound of 20, a page of 21 threads is presented in
  two consecutive cycles: the 21st append of the first cycle drops the id of the first
  thread from the list, and the second cycle sends a second webhook call for it.
\<close>

theorem renotified_after_eviction_counterexample:
  "length (calls_for zero_hash ''a'' (program (final (forum_monitor_loop (source_config None)
      zero_hash 0 [quiet_env crowded_page, quiet_env crowded_page] start)))) = 2"
  by code_simp

end
